theory Spec2Isabelle
  imports
    Main
    "HOL-Library.Word"
    "HOL-Library.Multiset"
    "HOL-Library.Char_ord"
    "HOL-Library.List_Lexorder"
begin

section \<open>pgo-analysis: summary of indirect-call devirtualization\<close>

text \<open>
  A shallow embedding of \<^verbatim>\<open>main.go\<close>. Go strings are byte sequences and are
  modelled as \<^typ>\<open>string\<close>; \<^verbatim>\<open>int64\<close> is \<^typ>\<open>64 word\<close>, whose addition wraps
  as Go's does, read as a signed number by \<^const>\<open>sint\<close>. String comparison
  (\<^verbatim>\<open><\<close> on Go strings) is the bytewise lexicographic order, which is the order
  of \<^verbatim>\<open>HOL-Library.List_Lexorder\<close> over \<^verbatim>\<open>HOL-Library.Char_ord\<close>.
\<close>

subsection \<open>Data\<close>

type_synonym int64 = "64 word"

text \<open>\<^verbatim>\<open>type CallStat struct\<close>.\<close>

record CallStat =
  Pkg :: string
  Pos :: string
  Caller :: string
  Direct :: bool
  Interface :: bool
  Weight :: int64
  Hottest :: string
  HottestWeight :: int64
  Devirtualized :: string
  DevirtualizedWeight :: int64

text \<open>The zero value of the struct, as \<^verbatim>\<open>var stat CallStat\<close> creates it.\<close>

definition zeroCallStat :: CallStat where
  "zeroCallStat = \<lparr>Pkg = [], Pos = [], Caller = [], Direct = False, Interface = False,
     Weight = 0, Hottest = [], HottestWeight = 0, Devirtualized = [],
     DevirtualizedWeight = 0\<rparr>"

text \<open>\<^verbatim>\<open>type sum struct\<close> (the name \<open>sum\<close> is taken in HOL).\<close>

record sum_t =
  direct :: int64
  indirectFunc :: int64
  indirectMethod :: int64

text \<open>\<^verbatim>\<open>func (s *sum) total() int64\<close>.\<close>

definition total :: "sum_t \<Rightarrow> int64" where
  "total s = direct s + indirectFunc s + indirectMethod s"

text \<open>An error value; only its being an error matters here.\<close>

datatype error = Error string

subsection \<open>Position normalisation\<close>

text \<open>
  \<^verbatim>\<open>filepath.Join\<close> and \<^verbatim>\<open>filepath.Clean\<close> belong to Go's standard library
  (package \<^verbatim>\<open>path/filepath\<close>, Unix build: separator \<^verbatim>\<open>/\<close>, no volume names).
  \<^verbatim>\<open>Clean\<close> reads the path at index \<open>r\<close> and writes a buffer of \<open>w\<close> bytes; here
  the unread rest of the path and the written bytes \<open>out\<close> are lists, \<open>w\<close> is
  \<open>length out\<close>, and \<open>dotdot\<close> is the index where a \<^verbatim>\<open>..\<close> element must stop.
\<close>

abbreviation Separator :: char where
  "Separator \<equiv> CHR ''/''"

text \<open>
  The inner loop of the \<^verbatim>\<open>..\<close> case, after \<^verbatim>\<open>out.w--\<close>:
  \<^verbatim>\<open>for out.w > dotdot && !os.IsPathSeparator(out.index(out.w)) { out.w-- }\<close>.
\<close>

fun backtrack :: "string \<Rightarrow> nat \<Rightarrow> nat \<Rightarrow> nat" where
  "backtrack out dotdot 0 = 0"
| "backtrack out dotdot (Suc w) =
     (if Suc w > dotdot \<and> out ! Suc w \<noteq> Separator then backtrack out dotdot w else Suc w)"

text \<open>The main loop \<^verbatim>\<open>for r < n\<close> of \<^verbatim>\<open>Clean\<close>, one path element per round.\<close>

function cleanLoop :: "bool \<Rightarrow> string \<Rightarrow> string \<Rightarrow> nat \<Rightarrow> string" where
  "cleanLoop rooted [] out dotdot = out"
| "cleanLoop rooted (c # cs) out dotdot =
     (if c = Separator then
        \<comment> \<open>empty path element\<close>
        cleanLoop rooted cs out dotdot
      else if c = CHR ''.'' \<and> (cs = [] \<or> hd cs = Separator) then
        \<comment> \<open>\<^verbatim>\<open>.\<close> element\<close>
        cleanLoop rooted cs out dotdot
      else if c = CHR ''.'' \<and> hd cs = CHR ''.'' \<and> (tl cs = [] \<or> hd (tl cs) = Separator) then
        \<comment> \<open>\<^verbatim>\<open>..\<close> element: remove to last separator\<close>
        (if length out > dotdot then
           cleanLoop rooted (tl cs) (take (backtrack out dotdot (length out - 1)) out) dotdot
         else if \<not> rooted then
           (let out' = (if length out > 0 then out @ [Separator] else out) @ ''..''
            in cleanLoop rooted (tl cs) out' (length out'))
         else cleanLoop rooted (tl cs) out dotdot)
      else
        \<comment> \<open>real path element: add slash if needed, copy element\<close>
        (let out' = (if rooted \<and> length out \<noteq> 1 \<or> \<not> rooted \<and> length out \<noteq> 0
                     then out @ [Separator] else out)
         in cleanLoop rooted (dropWhile (\<lambda>x. x \<noteq> Separator) (c # cs))
              (out' @ takeWhile (\<lambda>x. x \<noteq> Separator) (c # cs)) dotdot))"
  by pat_completeness auto
termination
  by (relation "measure (\<lambda>(rooted, path, out, dotdot). length path)")
     (auto simp: less_Suc_eq_le length_dropWhile_le)

text \<open>\<^verbatim>\<open>filepath.Clean\<close>.\<close>

definition Clean :: "string \<Rightarrow> string" where
  "Clean path =
     (if path = [] then ''.''
      else
        let rooted = (hd path = Separator);
            out = (if rooted then cleanLoop rooted (tl path) [Separator] 1
                   else cleanLoop rooted path [] 0)
        in if length out = 0 then ''.'' else out)"

text \<open>
  \<^verbatim>\<open>filepath.Join(a, b)\<close>: the elements from the first non-empty one on are joined
  with the separator and cleaned; if all are empty the result is empty.
\<close>

definition Join :: "string \<Rightarrow> string \<Rightarrow> string" where
  "Join a b =
     (if a \<noteq> [] then Clean (a @ [Separator] @ b)
      else if b \<noteq> [] then Clean b
      else [])"

text \<open>
  \<^verbatim>\<open>func normalizePos(pos string) string\<close>. The package variable \<^verbatim>\<open>cwd\<close>, set
  once at startup from \<^verbatim>\<open>os.Getwd()\<close>, is the first argument.
\<close>

definition normalizePos :: "string \<Rightarrow> string \<Rightarrow> string" where
  "normalizePos cwd pos =
     (if length pos \<ge> 1 \<and> pos ! 0 = CHR ''/'' then pos else Join cwd pos)"

subsection \<open>Reading the input\<close>

text \<open>
  \<^verbatim>\<open>inlinedCallRe = regexp.MustCompile(`^(\S+): inlining call to (.*)$`)\<close>.
  In Go's regular expressions \<^verbatim>\<open>\s\<close> is the class of tab, newline, form feed, carriage
  return and space, \<^verbatim>\<open>\S\<close> is its complement, and \<^verbatim>\<open>.\<close> matches any character but
  newline. The pattern is anchored at both ends, and the character after the colon must be
  a space: so the first capture and its colon are exactly the longest prefix of the line
  free of white space, and a match, when there is one, is unique.
\<close>

definition isSpace :: "char \<Rightarrow> bool" where
  "isSpace c \<longleftrightarrow> c = CHR 0x09 \<or> c = CHR 0x0A \<or> c = CHR 0x0C \<or> c = CHR 0x0D \<or> c = CHR '' ''"

text \<open>
  \<^verbatim>\<open>inlinedCallRe.FindStringSubmatch(line)\<close>: \<open>None\<close> for no match (a \<^verbatim>\<open>nil\<close> slice),
  otherwise the two captures \<^verbatim>\<open>m[1]\<close> and \<^verbatim>\<open>m[2]\<close> of the three-element slice.
\<close>

definition FindStringSubmatch :: "string \<Rightarrow> (string \<times> string) option" where
  "FindStringSubmatch line =
     (let w = takeWhile (\<lambda>c. \<not> isSpace c) line;
          rest = dropWhile (\<lambda>c. \<not> isSpace c) line
      in if length w \<ge> 2 \<and> last w = CHR '':''
            \<and> take 18 rest = '' inlining call to ''
            \<and> CHR 0x0A \<notin> set rest
         then Some (butlast w, drop 18 rest)
         else None)"

text \<open>
  \<^verbatim>\<open>inlined := make(map[string][]string)\<close>. Indexing a Go map at a missing key gives
  the zero value, here the \<^verbatim>\<open>nil\<close> slice, which has no elements.
\<close>

type_synonym inlined = "string \<rightharpoonup> string list"

definition index :: "inlined \<Rightarrow> string \<Rightarrow> string list" where
  "index m k = (case m k of None \<Rightarrow> [] | Some v \<Rightarrow> v)"

text \<open>
  \<^verbatim>\<open>json.Unmarshal(line, &stat)\<close> belongs to Go's standard library
  (\<^verbatim>\<open>encoding/json\<close>); it is a parameter of the model. It is given the line and the
  record to fill, and returns the error, if any, and the record as it has left it.
\<close>

type_synonym unmarshal = "string \<Rightarrow> CallStat \<Rightarrow> error option \<times> CallStat"

text \<open>
  Standard input as \<^verbatim>\<open>bufio.Scanner\<close> presents it: the lines that \<^verbatim>\<open>scanner.Scan()\<close>
  yields, in order, and what \<^verbatim>\<open>scanner.Err()\<close> returns after the last of them
  (\<open>None\<close> for \<^verbatim>\<open>nil\<close>: the input ended without a fault).
\<close>

record stdin =
  scanned :: "string list"
  scanErr :: "error option"

text \<open>The body of the loop \<^verbatim>\<open>for scanner.Scan()\<close> of \<^verbatim>\<open>readStats\<close>, for one line.\<close>

definition scanLine ::
  "unmarshal \<Rightarrow> string \<Rightarrow> string \<Rightarrow> CallStat list \<times> inlined \<Rightarrow> CallStat list \<times> inlined" where
  "scanLine Unmarshal cwd line acc =
     (let stats = fst acc;
          inlined = snd acc;
          inlined' = (case FindStringSubmatch line of
                        Some (m1, m2) \<Rightarrow>
                          (let pos = normalizePos cwd m1
                           in inlined(pos \<mapsto> index inlined pos @ [m2]))
                      | None \<Rightarrow> inlined)
      in case Unmarshal line zeroCallStat of
           (Some err, _) \<Rightarrow> (stats, inlined')
         | (None, stat) \<Rightarrow> (stats @ [stat], inlined'))"

text \<open>
  \<^verbatim>\<open>func readStats() ([]CallStat, map[string][]string, error)\<close>; \<open>Inl err\<close> is the
  return \<^verbatim>\<open>nil, nil, err\<close>.
\<close>

definition readStats ::
  "unmarshal \<Rightarrow> string \<Rightarrow> stdin \<Rightarrow> error + CallStat list \<times> inlined" where
  "readStats Unmarshal cwd inp =
     (let acc = fold (scanLine Unmarshal cwd) (scanned inp) ([], Map.empty)
      in case scanErr inp of
           Some err \<Rightarrow> Inl err
         | None \<Rightarrow> Inr acc)"

subsection \<open>Aggregation\<close>

text \<open>
  The five local variables \<^verbatim>\<open>count\<close>, \<^verbatim>\<open>weight\<close>, \<^verbatim>\<open>hottestWeight\<close>,
  \<^verbatim>\<open>devirtualizedCount\<close> and \<^verbatim>\<open>devirtualizedWeight\<close> of \<^verbatim>\<open>run\<close>, each of type
  \<^verbatim>\<open>sum\<close> (\<open>count\<close> is taken by multisets, hence the prime).
\<close>

record totals =
  count' :: sum_t
  weight :: sum_t
  hottestWeight :: sum_t
  devirtualizedCount :: sum_t
  devirtualizedWeight :: sum_t

definition zeroSum :: sum_t where
  "zeroSum = \<lparr>direct = 0, indirectFunc = 0, indirectMethod = 0\<rparr>"

definition zeroTotals :: totals where
  "zeroTotals = \<lparr>count' = zeroSum, weight = zeroSum, hottestWeight = zeroSum,
     devirtualizedCount = zeroSum, devirtualizedWeight = zeroSum\<rparr>"

text \<open>The body of the loop \<^verbatim>\<open>for _, s := range stats\<close> (lines 140 to 162).\<close>

definition tally :: "CallStat \<Rightarrow> totals \<Rightarrow> totals" where
  "tally s t =
     (if Direct s then
        t\<lparr>count' := (count' t)\<lparr>direct := direct (count' t) + 1\<rparr>,
          weight := (weight t)\<lparr>direct := direct (weight t) + Weight s\<rparr>,
          hottestWeight := (hottestWeight t)\<lparr>direct := direct (hottestWeight t) + Weight s\<rparr>\<rparr>
      else if Interface s then
        (let t' = t\<lparr>count' := (count' t)\<lparr>indirectMethod := indirectMethod (count' t) + 1\<rparr>,
                    weight := (weight t)\<lparr>indirectMethod := indirectMethod (weight t) + Weight s\<rparr>,
                    hottestWeight := (hottestWeight t)
                      \<lparr>indirectMethod := indirectMethod (hottestWeight t) + HottestWeight s\<rparr>\<rparr>
         in if Devirtualized s \<noteq> [] then
              t'\<lparr>devirtualizedCount := (devirtualizedCount t')
                    \<lparr>indirectMethod := indirectMethod (devirtualizedCount t') + 1\<rparr>,
                 devirtualizedWeight := (devirtualizedWeight t')
                    \<lparr>indirectMethod := indirectMethod (devirtualizedWeight t')
                       + DevirtualizedWeight s\<rparr>\<rparr>
            else t')
      else
        (let t' = t\<lparr>count' := (count' t)\<lparr>indirectFunc := indirectFunc (count' t) + 1\<rparr>,
                    weight := (weight t)\<lparr>indirectFunc := indirectFunc (weight t) + Weight s\<rparr>,
                    hottestWeight := (hottestWeight t)
                      \<lparr>indirectFunc := indirectFunc (hottestWeight t) + HottestWeight s\<rparr>\<rparr>
         in if Devirtualized s \<noteq> [] then
              t'\<lparr>devirtualizedCount := (devirtualizedCount t')
                    \<lparr>indirectFunc := indirectFunc (devirtualizedCount t') + 1\<rparr>,
                 devirtualizedWeight := (devirtualizedWeight t')
                    \<lparr>indirectFunc := indirectFunc (devirtualizedWeight t')
                       + DevirtualizedWeight s\<rparr>\<rparr>
            else t'))"

text \<open>The whole loop, from all sums zero.\<close>

definition aggregate :: "CallStat list \<Rightarrow> totals" where
  "aggregate stats = fold tally stats zeroTotals"

subsection \<open>The report\<close>

text \<open>
  \<^verbatim>\<open>func pct(n, d int64) float64 { return 100 * float64(n) / float64(d) }\<close>.
  Floating-point arithmetic is not interpreted: a \<^verbatim>\<open>float64\<close> is the expression
  that computes it.
\<close>

datatype float64 =
    FloatConst int
  | FloatOf int64
  | FMul float64 float64
  | FDiv float64 float64

definition pct :: "int64 \<Rightarrow> int64 \<Rightarrow> float64" where
  "pct n d = FDiv (FMul (FloatConst 100) (FloatOf n)) (FloatOf d)"

text \<open>
  What kind of IEEE 754 value a \<^verbatim>\<open>float64\<close> expression computes: a NaN, an infinity,
  a zero or a finite number other than zero, the last three with their sign. Converting
  an integer gives \<open>+0\<close> for 0 and otherwise a finite number of the integer's sign. A
  product or quotient is a NaN if an operand is, or for \<open>0 \<times> \<infinity>\<close>, \<open>0 / 0\<close> and
  \<open>\<infinity> / \<infinity>\<close>; otherwise its sign is the product of the signs, and dividing
  anything but a zero by a zero gives an infinity: Go's floating-point division by zero
  does not panic. Two finite operands other than zero are taken to give a finite result
  other than zero, which is so for the expressions that \<open>pct\<close> builds: its product
  is at most \<open>100 \<times> 2 ^ 63\<close> and its quotient at least \<open>100 / 2 ^ 63\<close> in magnitude,
  far from overflow and underflow.
\<close>

datatype sign = Positive | Negative

datatype fclass = NaN | Infinity sign | Zero sign | Finite sign

fun signMul :: "sign \<Rightarrow> sign \<Rightarrow> sign" where
  "signMul Positive s = s"
| "signMul Negative Positive = Negative"
| "signMul Negative Negative = Positive"

definition classOfInt :: "int \<Rightarrow> fclass" where
  "classOfInt k = (if k = 0 then Zero Positive else if 0 < k then Finite Positive else Finite Negative)"

fun fmul :: "fclass \<Rightarrow> fclass \<Rightarrow> fclass" where
  "fmul NaN y = NaN"
| "fmul x NaN = NaN"
| "fmul (Infinity s) (Zero t) = NaN"
| "fmul (Zero s) (Infinity t) = NaN"
| "fmul (Infinity s) (Infinity t) = Infinity (signMul s t)"
| "fmul (Infinity s) (Finite t) = Infinity (signMul s t)"
| "fmul (Finite s) (Infinity t) = Infinity (signMul s t)"
| "fmul (Zero s) (Zero t) = Zero (signMul s t)"
| "fmul (Zero s) (Finite t) = Zero (signMul s t)"
| "fmul (Finite s) (Zero t) = Zero (signMul s t)"
| "fmul (Finite s) (Finite t) = Finite (signMul s t)"

fun fdiv :: "fclass \<Rightarrow> fclass \<Rightarrow> fclass" where
  "fdiv NaN y = NaN"
| "fdiv x NaN = NaN"
| "fdiv (Zero s) (Zero t) = NaN"
| "fdiv (Infinity s) (Infinity t) = NaN"
| "fdiv (Infinity s) (Zero t) = Infinity (signMul s t)"
| "fdiv (Finite s) (Zero t) = Infinity (signMul s t)"
| "fdiv (Infinity s) (Finite t) = Infinity (signMul s t)"
| "fdiv (Zero s) (Infinity t) = Zero (signMul s t)"
| "fdiv (Zero s) (Finite t) = Zero (signMul s t)"
| "fdiv (Finite s) (Infinity t) = Zero (signMul s t)"
| "fdiv (Finite s) (Finite t) = Finite (signMul s t)"

fun fev :: "float64 \<Rightarrow> fclass" where
  "fev (FloatConst k) = classOfInt k"
| "fev (FloatOf n) = classOfInt (sint n)"
| "fev (FMul a b) = fmul (fev a) (fev b)"
| "fev (FDiv a b) = fdiv (fev a) (fev b)"


text \<open>
  Output is the sequence of calls of \<^verbatim>\<open>fmt.Printf\<close>, each with its format string and
  its arguments: \<open>D\<close> an integer, \<open>F\<close> a \<^verbatim>\<open>float64\<close>, \<open>S\<close> a string, and
  \<open>Sprintf\<close> the string that \<^verbatim>\<open>fmt.Sprintf\<close> makes of a format and arguments.
\<close>

datatype arg =
    D int64
  | F float64
  | S string
  | Sprintf string "arg list"

datatype printf = Printf string "arg list"

abbreviation TAB :: string where
  "TAB \<equiv> [CHR 0x09]"

abbreviation NL :: string where
  "NL \<equiv> [CHR 0x0A]"

text \<open>\<^verbatim>\<open>const topCount = 100\<close>.\<close>

definition topCount :: nat where
  "topCount = 100"

text \<open>The breakdowns and the four devirtualization lines (lines 164 to 185).\<close>

definition breakdown :: "totals \<Rightarrow> printf list" where
  "breakdown t =
     (let count = count' t; weight = weight t; hottestWeight = hottestWeight t;
          devirtualizedCount = devirtualizedCount t;
          devirtualizedWeight = devirtualizedWeight t
      in
      [Printf (''Call count breakdown:'' @ NL) [],
       Printf (TAB @ ''Total: %d'' @ NL) [D (total count)],
       Printf (TAB @ ''Direct: %d (%.2f%% of total)'' @ NL)
         [D (direct count), F (pct (direct count) (total count))],
       Printf (TAB @ ''Indirect func: %d (%.2f%% of total)'' @ NL)
         [D (indirectFunc count), F (pct (indirectFunc count) (total count))],
       Printf (TAB @ ''Interface method: %d (%.2f%% of total)'' @ NL)
         [D (indirectMethod count), F (pct (indirectMethod count) (total count))],
       Printf (''Call weight breakdown:'' @ NL) [],
       Printf (TAB @ ''Total: %d'' @ NL) [D (total weight)],
       Printf (TAB @ ''Direct: %d (%.2f%% of total)'' @ NL)
         [D (direct weight), F (pct (direct weight) (total weight))],
       Printf (TAB @ ''Indirect func: %d (%.2f%% of total)'' @ NL)
         [D (indirectFunc weight), F (pct (indirectFunc weight) (total weight))],
       Printf (TAB @ ''Interface method: %d (%.2f%% of total)'' @ NL)
         [D (indirectMethod weight), F (pct (indirectMethod weight) (total weight))],
       Printf (''Call hottest weight breakdown:'' @ NL) [],
       Printf (TAB @ ''Total: %d (%.2f%% of total)'' @ NL)
         [D (total hottestWeight), F (pct (total hottestWeight) (total weight))],
       Printf (TAB @ ''Direct: %d (%.2f%% of direct)'' @ NL)
         [D (direct hottestWeight), F (pct (direct hottestWeight) (direct weight))],
       Printf (TAB @ ''Indirect func: %d (%.2f%% of indirect func)'' @ NL)
         [D (indirectFunc hottestWeight),
          F (pct (indirectFunc hottestWeight) (indirectFunc weight))],
       Printf (TAB @ ''Interface method: %d (%.2f%% of interface method)'' @ NL)
         [D (indirectMethod hottestWeight),
          F (pct (indirectMethod hottestWeight) (indirectMethod weight))],
       Printf (''Devirtualized interface call count: %d (%.2f%% of total, %.2f%% of interface method)'' @ NL)
         [D (indirectMethod devirtualizedCount),
          F (pct (indirectMethod devirtualizedCount) (total count)),
          F (pct (indirectMethod devirtualizedCount) (indirectMethod count))],
       Printf (''Devirtualized interface call weight: %d (%.2f%% of total, %.2f%% of interface method)'' @ NL)
         [D (indirectMethod devirtualizedWeight),
          F (pct (indirectMethod devirtualizedWeight) (total weight)),
          F (pct (indirectMethod devirtualizedWeight) (indirectMethod weight))],
       Printf (''Devirtualized function call count: %d (%.2f%% of total, %.2f%% of indirect func)'' @ NL)
         [D (indirectFunc devirtualizedCount),
          F (pct (indirectFunc devirtualizedCount) (total count)),
          F (pct (indirectFunc devirtualizedCount) (indirectFunc count))],
       Printf (''Devirtualized function call weight: %d (%.2f%% of total, %.2f%% of indirect func)'' @ NL)
         [D (indirectFunc devirtualizedWeight),
          F (pct (indirectFunc devirtualizedWeight) (total weight)),
          F (pct (indirectFunc devirtualizedWeight) (indirectFunc weight))]])"

subsection \<open>Ranking\<close>

text \<open>
  The comparison passed to \<^verbatim>\<open>sort.Slice\<close>, on the elements at \<open>i\<close> and \<open>j\<close>;
  \<^verbatim>\<open><\<close> on \<^verbatim>\<open>int64\<close> is the signed order.
\<close>

definition lessStat :: "CallStat \<Rightarrow> CallStat \<Rightarrow> bool" where
  "lessStat a b =
     (if HottestWeight a \<noteq> HottestWeight b then HottestWeight a <s HottestWeight b
      else if Pkg a \<noteq> Pkg b then Pkg a < Pkg b
      else Pos a < Pos b)"

text \<open>
  \<^verbatim>\<open>sort.Slice\<close> belongs to Go's standard library and is a parameter of the model. Its
  contract: the slice is permuted so that no element is less than one before it; the
  order of elements neither of which is less than the other is not fixed.
\<close>

type_synonym sortSlice = "(CallStat \<Rightarrow> CallStat \<Rightarrow> bool) \<Rightarrow> CallStat list \<Rightarrow> CallStat list"

definition sortContract :: "(CallStat \<Rightarrow> CallStat \<Rightarrow> bool) \<Rightarrow> CallStat list \<Rightarrow> CallStat list \<Rightarrow> bool" where
  "sortContract lt xs ys \<longleftrightarrow> mset ys = mset xs \<and> sorted_wrt (\<lambda>x y. \<not> lt y x) ys"

text \<open>
  What one round of the listing loop prints for the record \<open>s\<close> (lines 205 to 220): the
  line of the call, then one line for each entry of \<^verbatim>\<open>inlined[s.Pos]\<close>.
\<close>

definition printCall :: "inlined \<Rightarrow> CallStat \<Rightarrow> printf list" where
  "printCall inlined s =
     (let spec = (if Devirtualized s \<noteq> [] then ''    Devirtualized'' else ''NOT Devirtualized'');
          specExtra = (if Devirtualized s \<noteq> [] \<and> Devirtualized s \<noteq> Hottest s
                       then Sprintf (TAB @ ''(devirtualized to %s weight %d)'')
                              [S (Devirtualized s), D (DevirtualizedWeight s)]
                       else S []);
          typ = (if \<not> Interface s then '' function'' else ''interface'')
      in Printf (TAB @ ''(%s) (%s) %-40s -> %-40s (weight %d, %.2f%% of callsite weight)%s''
                 @ TAB @ ''%s'' @ NL)
           [S spec, S typ, S (Caller s), S (Hottest s), D (HottestWeight s),
            F (pct (HottestWeight s) (Weight s)), specExtra, S (Pos s)]
         # map (\<lambda>sym. Printf (TAB @ TAB @ ''inlined %s'' @ NL) [S sym]) (index inlined (Pos s)))"

text \<open>The state of the listing loop: the output so far and its three counters.\<close>

record listing =
  stdout :: "printf list"
  printed :: nat
  topWeight :: int64
  topHottestWeight :: int64

text \<open>The body of the listing loop for the record \<open>s\<close> (lines 201 to 224).\<close>

definition visit :: "inlined \<Rightarrow> CallStat \<Rightarrow> listing \<Rightarrow> listing" where
  "visit inlined s st =
     (if Direct s then st
      else st\<lparr>stdout := stdout st @ printCall inlined s,
              printed := printed st + 1,
              topWeight := topWeight st + Weight s,
              topHottestWeight := topHottestWeight st + HottestWeight s\<rparr>)"

text \<open>
  \<^verbatim>\<open>for i := len(stats) - 1; i >= 0 && printed < topCount; i--\<close>. The third argument
  is \<open>i + 1\<close>, so that \<open>0\<close> is \<open>i < 0\<close>; the bound \<open>k\<close> is \<^verbatim>\<open>topCount\<close>.
\<close>

fun topLoop :: "nat \<Rightarrow> inlined \<Rightarrow> CallStat list \<Rightarrow> nat \<Rightarrow> listing \<Rightarrow> listing" where
  "topLoop k inlined stats 0 st = st"
| "topLoop k inlined stats (Suc i) st =
     (if printed st < k then topLoop k inlined stats i (visit inlined (stats ! i) st)
      else st)"

subsection \<open>The run\<close>

text \<open>
  \<^verbatim>\<open>func run() error\<close>: what has been written to standard output, and the error
  returned (\<open>None\<close> for \<^verbatim>\<open>nil\<close>).
\<close>

definition run :: "unmarshal \<Rightarrow> sortSlice \<Rightarrow> string \<Rightarrow> stdin \<Rightarrow> printf list \<times> error option" where
  "run Unmarshal Slice cwd inp =
     (case readStats Unmarshal cwd inp of
        Inl err \<Rightarrow> ([], Some err)
      | Inr (stats, inlined) \<Rightarrow>
          (let t = aggregate stats;
               out1 = breakdown t
                 @ [Printf (NL @ ''Top %d hottest indirect calls:'' @ NL) [D (of_nat topCount)]];
               stats' = Slice lessStat stats;
               st = topLoop topCount inlined stats' (length stats')
                      \<lparr>stdout = out1, printed = 0, topWeight = 0, topHottestWeight = 0\<rparr>;
               out2 = stdout st
                 @ [Printf (''Top %d weight: %d (%.2f%% of indirect weight)'' @ NL)
                      [D (of_nat topCount), D (topWeight st),
                       F (pct (topWeight st)
                            (indirectFunc (weight t) + indirectMethod (weight t)))],
                    Printf (''Top %d hottest weight: %d (%.2f%% of indirect hottest weight)'' @ NL)
                      [D (of_nat topCount), D (topHottestWeight st),
                       F (pct (topHottestWeight st)
                            (indirectFunc (hottestWeight t) + indirectMethod (hottestWeight t)))]]
           in (out2, None)))"

subsection \<open>The specification's words\<close>

text \<open>
  The ranking key as the specification words it: hottest weight, then package, then
  position, compared lexicographically as a triple.
\<close>

definition keyLess :: "CallStat \<Rightarrow> CallStat \<Rightarrow> bool" where
  "keyLess a b \<longleftrightarrow>
     sint (HottestWeight a) < sint (HottestWeight b)
     \<or> HottestWeight a = HottestWeight b
        \<and> (Pkg a < Pkg b \<or> Pkg a = Pkg b \<and> Pos a < Pos b)"

text \<open>
  The selection as the specification words it: the records of the ascending order taken
  from its end, the direct ones left out, at most \<open>k\<close> of them.
\<close>

definition topK :: "nat \<Rightarrow> CallStat list \<Rightarrow> CallStat list" where
  "topK k stats = take k (filter (\<lambda>s. \<not> Direct s) (rev stats))"

text \<open>The state of the listing loop once the records \<open>sel\<close> have been printed, in that order.\<close>

definition emit :: "inlined \<Rightarrow> CallStat list \<Rightarrow> listing \<Rightarrow> listing" where
  "emit inlined sel st =
     st\<lparr>stdout := stdout st @ concat (map (printCall inlined) sel),
        printed := printed st + length sel,
        topWeight := topWeight st + sum_list (map Weight sel),
        topHottestWeight := topHottestWeight st + sum_list (map HottestWeight sel)\<rparr>"

text \<open>
  The report of a run over the record list \<open>stats\<close> and the map \<open>inlined\<close> whose
  listing holds the records \<open>sel\<close>: the breakdowns, the heading, the lines of each
  record of \<open>sel\<close> in turn, and the two sums over \<open>sel\<close>.
\<close>

definition report :: "CallStat list \<Rightarrow> inlined \<Rightarrow> CallStat list \<Rightarrow> printf list" where
  "report stats inlined sel =
     breakdown (aggregate stats)
     @ [Printf (NL @ ''Top %d hottest indirect calls:'' @ NL) [D (of_nat topCount)]]
     @ concat (map (printCall inlined) sel)
     @ [Printf (''Top %d weight: %d (%.2f%% of indirect weight)'' @ NL)
          [D (of_nat topCount),
           D (sum_list (map Weight sel)),
           F (pct (sum_list (map Weight sel))
                (indirectFunc (weight (aggregate stats))
                 + indirectMethod (weight (aggregate stats))))],
        Printf (''Top %d hottest weight: %d (%.2f%% of indirect hottest weight)'' @ NL)
          [D (of_nat topCount),
           D (sum_list (map HottestWeight sel)),
           F (pct (sum_list (map HottestWeight sel))
                (indirectFunc (hottestWeight (aggregate stats))
                 + indirectMethod (hottestWeight (aggregate stats))))]]"

text \<open>
  The annotation symbols recorded for a position \<open>key\<close>, as the specification words it:
  the second capture of every input line that matches the pattern and whose first
  capture normalises to \<open>key\<close>, in the order of the lines.
\<close>

definition annotationsAt :: "string \<Rightarrow> string list \<Rightarrow> string \<Rightarrow> string list" where
  "annotationsAt cwd ls key =
     concat (map (\<lambda>line. case FindStringSubmatch line of
                            Some (m1, m2) \<Rightarrow> if normalizePos cwd m1 = key then [m2] else []
                          | None \<Rightarrow> []) ls)"

text \<open>The records that the lines decode to, in the order of the lines.\<close>

definition decoded :: "unmarshal \<Rightarrow> string list \<Rightarrow> CallStat list" where
  "decoded Unmarshal ls =
     concat (map (\<lambda>line. case Unmarshal line zeroCallStat of
                            (Some err, _) \<Rightarrow> []
                          | (None, stat) \<Rightarrow> [stat]) ls)"

subsection \<open>Example inputs\<close>

text \<open>A direct call of weight 10 whose hottest callee has weight 3.\<close>

definition directCall :: CallStat where
  "directCall = zeroCallStat\<lparr>Direct := True, Weight := 10, HottestWeight := 3\<rparr>"

text \<open>A direct call whose hottest weight is above that of the indirect calls below.\<close>

definition hotDirect :: CallStat where
  "hotDirect = zeroCallStat\<lparr>Pkg := ''c'', Pos := ''/w/c.go:5:6'', Direct := True,
     Weight := 20, HottestWeight := 9\<rparr>"

text \<open>
  An indirect function call and an interface call, both devirtualized, of equal hottest
  weight and in packages \<^verbatim>\<open>a\<close> and \<^verbatim>\<open>b\<close>.
\<close>

definition funcCall :: CallStat where
  "funcCall = zeroCallStat\<lparr>Pkg := ''a'', Pos := ''/w/a.go:1:2'', Caller := ''a.f'',
     Weight := 7, Hottest := ''a.g'', HottestWeight := 5, Devirtualized := ''a.g'',
     DevirtualizedWeight := 5\<rparr>"

definition ifaceCall :: CallStat where
  "ifaceCall = zeroCallStat\<lparr>Pkg := ''b'', Pos := ''/w/b.go:3:4'', Caller := ''b.f'',
     Interface := True, Weight := 9, Hottest := ''b.T.M'', HottestWeight := 5,
     Devirtualized := ''b.T.M'', DevirtualizedWeight := 5\<rparr>"

text \<open>
  An annotation line with a relative position, and the line of a call at the same
  relative position together with the record it decodes to.
\<close>

definition annotLine :: string where
  "annotLine = ''a.go:1:2: inlining call to foo''"

definition relJSON :: string where
  \<open>relJSON = ''{"Pos":"a.go:1:2","Weight":5,"Hottest":"foo","HottestWeight":5}''\<close>

definition relCall :: CallStat where
  "relCall = zeroCallStat\<lparr>Pos := ''a.go:1:2'', Weight := 5, Hottest := ''foo'',
     HottestWeight := 5\<rparr>"

text \<open>
  A decoder for the examples. On the three kinds of line used in them it does what
  \<^verbatim>\<open>json.Unmarshal\<close> does: it fills the record from \<open>relJSON\<close>, leaves it untouched and
  reports no error for the empty object \<^verbatim>\<open>{}\<close>, and reports an error for a line that
  is not JSON.
\<close>

definition exampleUnmarshal :: unmarshal where
  "exampleUnmarshal line stat =
     (if line = relJSON then
        (None, stat\<lparr>Pos := ''a.go:1:2'', Weight := 5, Hottest := ''foo'', HottestWeight := 5\<rparr>)
      else if line = ''{}'' then (None, stat)
      else (Some (Error ''invalid character''), stat))"

text \<open>
  The lines of the three calls \<open>funcCall\<close>, \<open>ifaceCall\<close> and \<open>hotDirect\<close>, and a
  decoder that does on them what \<^verbatim>\<open>json.Unmarshal\<close> does: it sets the fields that the
  line names.
\<close>

definition funcJSON :: string where
  \<open>funcJSON = ''{"Pkg":"a","Pos":"/w/a.go:1:2","Caller":"a.f","Weight":7,"Hottest":"a.g","HottestWeight":5,"Devirtualized":"a.g","DevirtualizedWeight":5}''\<close>

definition ifaceJSON :: string where
  \<open>ifaceJSON = ''{"Pkg":"b","Pos":"/w/b.go:3:4","Caller":"b.f","Interface":true,"Weight":9,"Hottest":"b.T.M","HottestWeight":5,"Devirtualized":"b.T.M","DevirtualizedWeight":5}''\<close>

definition directJSON :: string where
  \<open>directJSON = ''{"Pkg":"c","Pos":"/w/c.go:5:6","Direct":true,"Weight":20,"HottestWeight":9}''\<close>

definition rankUnmarshal :: unmarshal where
  "rankUnmarshal line stat =
     (if line = funcJSON then
        (None, stat\<lparr>Pkg := ''a'', Pos := ''/w/a.go:1:2'', Caller := ''a.f'', Weight := 7,
           Hottest := ''a.g'', HottestWeight := 5, Devirtualized := ''a.g'',
           DevirtualizedWeight := 5\<rparr>)
      else if line = ifaceJSON then
        (None, stat\<lparr>Pkg := ''b'', Pos := ''/w/b.go:3:4'', Caller := ''b.f'', Interface := True,
           Weight := 9, Hottest := ''b.T.M'', HottestWeight := 5, Devirtualized := ''b.T.M'',
           DevirtualizedWeight := 5\<rparr>)
      else if line = directJSON then
        (None, stat\<lparr>Pkg := ''c'', Pos := ''/w/c.go:5:6'', Direct := True, Weight := 20,
           HottestWeight := 9\<rparr>)
      else (Some (Error ''invalid character''), stat))"

definition rankInput :: stdin where
  "rankInput = \<lparr>scanned = [ifaceJSON, directJSON, funcJSON], scanErr = None\<rparr>"

text \<open>An insertion sort, which stands for \<^verbatim>\<open>sort.Slice\<close> in the examples.\<close>

fun insertBy :: "('a \<Rightarrow> 'a \<Rightarrow> bool) \<Rightarrow> 'a \<Rightarrow> 'a list \<Rightarrow> 'a list" where
  "insertBy lt x [] = [x]"
| "insertBy lt x (y # ys) = (if lt x y then x # y # ys else y # insertBy lt x ys)"

definition insertionSort :: "('a \<Rightarrow> 'a \<Rightarrow> bool) \<Rightarrow> 'a list \<Rightarrow> 'a list" where
  "insertionSort lt xs = foldr (insertBy lt) xs []"

section \<open>Properties\<close>

subsection \<open>Position normalisation\<close>

lemma backtrack_ge: "dotdot \<le> w \<Longrightarrow> dotdot \<le> backtrack buf dotdot w"
  by (induction w) auto

text \<open>On a rooted path the buffer of \<open>Clean\<close> keeps its leading separator.\<close>

lemma cleanLoop_rooted:
  "buf \<noteq> [] \<Longrightarrow> hd buf = Separator \<Longrightarrow> 1 \<le> dotdot \<Longrightarrow>
   cleanLoop True path buf dotdot \<noteq> [] \<and> hd (cleanLoop True path buf dotdot) = Separator"
proof (induction "True" path buf dotdot rule: cleanLoop.induct)
  case (1 buf dotdot)
  then show ?case by simp
next
  case (2 c cs buf dotdot)
  have bt: "1 \<le> backtrack buf dotdot (length buf - 1)" if "dotdot < length buf"
  proof -
    from that have "dotdot \<le> length buf - 1" by arith
    then have "dotdot \<le> backtrack buf dotdot (length buf - 1)" by (rule backtrack_ge)
    with \<open>1 \<le> dotdot\<close> show ?thesis by arith
  qed
  show ?case
    using 2 bt by (auto simp: Let_def)
qed

lemma Clean_rooted:
  "path \<noteq> [] \<Longrightarrow> hd path = Separator \<Longrightarrow> Clean path \<noteq> [] \<and> hd (Clean path) = Separator"
  using cleanLoop_rooted [of "[Separator]" 1 "tl path"]
  by (simp add: Clean_def Let_def)

lemma Join_rooted:
  "cwd \<noteq> [] \<Longrightarrow> hd cwd = Separator \<Longrightarrow> Join cwd p \<noteq> [] \<and> hd (Join cwd p) = Separator"
  using Clean_rooted [of "cwd @ [Separator] @ p"]
  by (simp add: Join_def)

lemma normalizePos_rooted:
  "cwd \<noteq> [] \<Longrightarrow> hd cwd = Separator \<Longrightarrow>
   normalizePos cwd p \<noteq> [] \<and> hd (normalizePos cwd p) = Separator"
  using Join_rooted [of cwd p]
  by (auto simp: normalizePos_def hd_conv_nth Suc_le_eq)

lemma normalizePos_absolute:
  "p \<noteq> [] \<Longrightarrow> hd p = Separator \<Longrightarrow> normalizePos cwd p = p"
  by (auto simp: normalizePos_def hd_conv_nth Suc_le_eq)

text \<open>
  C6: position normalisation is idempotent. The working directory is what \<^verbatim>\<open>os.Getwd\<close>
  returned at startup, an absolute path: it begins with the separator. Then a position is
  either returned unchanged or joined onto that directory, and the result begins with the
  separator in both cases, so that normalising it again returns it unchanged.
\<close>

theorem normalizePos_idempotent:
  "cwd \<noteq> [] \<Longrightarrow> hd cwd = CHR ''/'' \<Longrightarrow>
   normalizePos cwd (normalizePos cwd p) = normalizePos cwd p"
  using normalizePos_rooted [of cwd p]
  by (simp add: normalizePos_absolute)

theorem normalizePos_idempotent_witness:
  "''/w'' \<noteq> [] \<and> hd ''/w'' = CHR ''/'' \<and>
   normalizePos ''/w'' (normalizePos ''/w'' ''a.go:1:2'') = normalizePos ''/w'' ''a.go:1:2'' \<and>
   normalizePos ''/w'' ''a.go:1:2'' = ''/w/a.go:1:2''"
proof -
  have h1: "''/w'' \<noteq> []" and h2: "hd ''/w'' = CHR ''/''" by simp_all
  have v: "normalizePos ''/w'' ''a.go:1:2'' = ''/w/a.go:1:2''"
    by (simp add: normalizePos_def Join_def Clean_def)
  from normalizePos_idempotent [OF h1 h2, of "''a.go:1:2''"] h1 h2 v show ?thesis by blast
qed

subsection \<open>Aggregation\<close>

text \<open>
  C1: every record adds its \<^verbatim>\<open>HottestWeight\<close> to the hottest-weight sum of its category.
  The two indirect branches do; the direct branch adds \<^verbatim>\<open>Weight\<close> instead. For the one
  direct call of weight 10 and hottest weight 3 the direct hottest-weight sum is 10, not 3.
\<close>

theorem aggregate_direct_hottestWeight:
  "HottestWeight directCall = 3 \<and> Weight directCall = 10 \<and>
   direct (hottestWeight (aggregate [directCall])) = 10 \<and>
   direct (hottestWeight (aggregate [directCall])) \<noteq> HottestWeight directCall"
  by (simp add: aggregate_def tally_def directCall_def zeroCallStat_def zeroTotals_def zeroSum_def)

lemma tally_commute: "tally a (tally b t) = tally b (tally a t)"
  apply (cases "Direct a"; cases "Direct b"; cases "Interface a"; cases "Interface b";
      cases "Devirtualized a = []"; cases "Devirtualized b = []")
  apply (simp_all add: tally_def Let_def add.commute add.left_commute)
  done

lemma tally_comp: "tally a \<circ> tally b = tally b \<circ> tally a"
  by (rule ext) (simp add: tally_commute)

lemma fold_tally_mset: "mset xs = mset ys \<Longrightarrow> fold tally xs t = fold tally ys t"
  by (rule arg_cong [where f = "\<lambda>f. f t"], rule fold_multiset_equiv) (simp_all add: tally_comp)

text \<open>
  C7: aggregation does not depend on the order of the records: a list and any
  permutation of it (a list with the same multiset of records) give the same five sums.
\<close>

theorem aggregate_perm:
  "mset stats' = mset stats \<Longrightarrow> aggregate stats' = aggregate stats"
  unfolding aggregate_def by (rule fold_tally_mset)

theorem aggregate_perm_witness:
  "mset [ifaceCall, directCall, funcCall] = mset [directCall, funcCall, ifaceCall] \<and>
   aggregate [ifaceCall, directCall, funcCall] = aggregate [directCall, funcCall, ifaceCall]"
proof -
  have h: "mset [ifaceCall, directCall, funcCall] = mset [directCall, funcCall, ifaceCall]"
    by simp
  from aggregate_perm [OF h] h show ?thesis by blast
qed

text \<open>Each sum in closed form: a fold of the loop body adds up what each record adds.\<close>

lemma fold_tally_field:
  fixes g :: "totals \<Rightarrow> int64"
  assumes "\<And>s t. g (tally s t) = g t + h s"
  shows "g (fold tally xs t) = g t + sum_list (map h xs)"
  using assms by (induction xs arbitrary: t) (simp_all add: add.assoc)

lemma sum_list_indicator:
  "sum_list (map (\<lambda>s. if P s then 1 else 0) xs) = (of_nat (length (filter P xs)) :: int64)"
  by (induction xs) simp_all

lemma count_indirectFunc:
  "indirectFunc (count' (aggregate xs)) =
     of_nat (length (filter (\<lambda>s. \<not> Direct s \<and> \<not> Interface s) xs))"
proof -
  have "indirectFunc (count' (fold tally xs zeroTotals)) = indirectFunc (count' zeroTotals)
      + sum_list (map (\<lambda>s. if \<not> Direct s \<and> \<not> Interface s then 1 else 0) xs)"
    by (rule fold_tally_field) (simp add: tally_def Let_def)
  then show ?thesis
    by (simp add: aggregate_def sum_list_indicator zeroTotals_def zeroSum_def)
qed

lemma devirtualizedCount_indirectFunc:
  "indirectFunc (devirtualizedCount (aggregate xs)) =
     of_nat (length (filter (\<lambda>s. (\<not> Direct s \<and> \<not> Interface s) \<and> Devirtualized s \<noteq> []) xs))"
proof -
  have "indirectFunc (devirtualizedCount (fold tally xs zeroTotals)) =
      indirectFunc (devirtualizedCount zeroTotals)
      + sum_list (map (\<lambda>s. if (\<not> Direct s \<and> \<not> Interface s) \<and> Devirtualized s \<noteq> [] then 1 else 0) xs)"
    by (rule fold_tally_field) (simp add: tally_def Let_def)
  then show ?thesis
    by (simp add: aggregate_def sum_list_indicator zeroTotals_def zeroSum_def)
qed

lemma count_indirectMethod:
  "indirectMethod (count' (aggregate xs)) =
     of_nat (length (filter (\<lambda>s. \<not> Direct s \<and> Interface s) xs))"
proof -
  have "indirectMethod (count' (fold tally xs zeroTotals)) = indirectMethod (count' zeroTotals)
      + sum_list (map (\<lambda>s. if \<not> Direct s \<and> Interface s then 1 else 0) xs)"
    by (rule fold_tally_field) (simp add: tally_def Let_def)
  then show ?thesis
    by (simp add: aggregate_def sum_list_indicator zeroTotals_def zeroSum_def)
qed

lemma devirtualizedCount_indirectMethod:
  "indirectMethod (devirtualizedCount (aggregate xs)) =
     of_nat (length (filter (\<lambda>s. (\<not> Direct s \<and> Interface s) \<and> Devirtualized s \<noteq> []) xs))"
proof -
  have "indirectMethod (devirtualizedCount (fold tally xs zeroTotals)) =
      indirectMethod (devirtualizedCount zeroTotals)
      + sum_list (map (\<lambda>s. if (\<not> Direct s \<and> Interface s) \<and> Devirtualized s \<noteq> [] then 1 else 0) xs)"
    by (rule fold_tally_field) (simp add: tally_def Let_def)
  then show ?thesis
    by (simp add: aggregate_def sum_list_indicator zeroTotals_def zeroSum_def)
qed

lemma devirtualizedCount_direct: "direct (devirtualizedCount (aggregate xs)) = 0"
proof -
  have "direct (devirtualizedCount (fold tally xs zeroTotals)) =
      direct (devirtualizedCount zeroTotals) + sum_list (map (\<lambda>s. 0) xs)"
    by (rule fold_tally_field) (simp add: tally_def Let_def)
  then show ?thesis
    by (simp add: aggregate_def zeroTotals_def zeroSum_def)
qed

lemma devirtualizedWeight_direct: "direct (devirtualizedWeight (aggregate xs)) = 0"
proof -
  have "direct (devirtualizedWeight (fold tally xs zeroTotals)) =
      direct (devirtualizedWeight zeroTotals) + sum_list (map (\<lambda>s. 0) xs)"
    by (rule fold_tally_field) (simp add: tally_def Let_def)
  then show ?thesis
    by (simp add: aggregate_def zeroTotals_def zeroSum_def)
qed

text \<open>What the direct branch does to the hottest-weight sum, for every record list.\<close>

lemma hottestWeight_direct:
  "direct (hottestWeight (aggregate xs)) = sum_list (map Weight (filter Direct xs))"
proof -
  have "direct (hottestWeight (fold tally xs zeroTotals)) =
      direct (hottestWeight zeroTotals) + sum_list (map (\<lambda>s. if Direct s then Weight s else 0) xs)"
    by (rule fold_tally_field) (simp add: tally_def Let_def)
  moreover have "sum_list (map (\<lambda>s. if Direct s then Weight s else 0) xs)
      = sum_list (map Weight (filter Direct xs))"
    by (induction xs) simp_all
  ultimately show ?thesis
    by (simp add: aggregate_def zeroTotals_def zeroSum_def)
qed

lemma sint_of_nat_small:
  "n < 2 ^ 63 \<Longrightarrow> sint (of_nat n :: int64) = int n"
  by (simp add: signed_of_nat signed_take_bit_int_eq_self)

lemma sint_count_le:
  assumes "length xs < 2 ^ 63"
  shows "sint (of_nat (length (filter (\<lambda>s. P s \<and> Q s) xs)) :: int64)
       \<le> sint (of_nat (length (filter P xs)) :: int64)"
proof -
  have a: "length (filter (\<lambda>s. P s \<and> Q s) xs) \<le> length (filter P xs)"
    by (induction xs) auto
  have b: "length (filter P xs) \<le> length xs" by simp
  from a b assms have "length (filter (\<lambda>s. P s \<and> Q s) xs) < 2 ^ 63"
    and "length (filter P xs) < 2 ^ 63" by linarith+
  then have "sint (of_nat (length (filter (\<lambda>s. P s \<and> Q s) xs)) :: int64)
       = int (length (filter (\<lambda>s. P s \<and> Q s) xs))"
    and "sint (of_nat (length (filter P xs)) :: int64) = int (length (filter P xs))"
    by (simp_all only: sint_of_nat_small)
  with a show ?thesis by simp
qed

text \<open>
  C5: after aggregating a record list, the devirtualized count of each indirect category
  is at most the count of that category (as signed 64-bit numbers), and both devirtualized
  sums of the direct category are zero. The length of a Go slice is an \<^verbatim>\<open>int\<close>, so a
  record list has fewer than \<open>2 ^ 63\<close> elements and the counts do not wrap.
\<close>

theorem devirtualizedCount_le_count:
  "length stats < 2 ^ 63 \<Longrightarrow>
   sint (indirectFunc (devirtualizedCount (aggregate stats)))
     \<le> sint (indirectFunc (count' (aggregate stats))) \<and>
   sint (indirectMethod (devirtualizedCount (aggregate stats)))
     \<le> sint (indirectMethod (count' (aggregate stats))) \<and>
   direct (devirtualizedCount (aggregate stats)) = 0 \<and>
   direct (devirtualizedWeight (aggregate stats)) = 0"
  by (simp only: count_indirectFunc devirtualizedCount_indirectFunc count_indirectMethod
      devirtualizedCount_indirectMethod devirtualizedCount_direct devirtualizedWeight_direct
      sint_count_le simp_thms)

theorem devirtualizedCount_le_count_witness:
  "length [directCall, funcCall, ifaceCall, zeroCallStat] < 2 ^ 63 \<and>
   sint (indirectFunc (devirtualizedCount (aggregate [directCall, funcCall, ifaceCall, zeroCallStat])))
     \<le> sint (indirectFunc (count' (aggregate [directCall, funcCall, ifaceCall, zeroCallStat]))) \<and>
   sint (indirectMethod (devirtualizedCount (aggregate [directCall, funcCall, ifaceCall, zeroCallStat])))
     \<le> sint (indirectMethod (count' (aggregate [directCall, funcCall, ifaceCall, zeroCallStat]))) \<and>
   direct (devirtualizedCount (aggregate [directCall, funcCall, ifaceCall, zeroCallStat])) = 0 \<and>
   direct (devirtualizedWeight (aggregate [directCall, funcCall, ifaceCall, zeroCallStat])) = 0"
proof -
  have h: "length [directCall, funcCall, ifaceCall, zeroCallStat] < 2 ^ 63" by simp
  from devirtualizedCount_le_count [OF h] h show ?thesis by blast
qed

subsection \<open>Reading the input\<close>

lemma snd_scanLine:
  "snd (scanLine U cwd line acc) =
     (case FindStringSubmatch line of
        Some (m1, m2) \<Rightarrow> (snd acc)(normalizePos cwd m1 \<mapsto> index (snd acc) (normalizePos cwd m1) @ [m2])
      | None \<Rightarrow> snd acc)"
  by (simp add: scanLine_def Let_def split: prod.splits option.splits)

lemma fst_scanLine:
  "fst (scanLine U cwd line acc) =
     fst acc @ (case U line zeroCallStat of (Some err, _) \<Rightarrow> [] | (None, stat) \<Rightarrow> [stat])"
  by (simp add: scanLine_def Let_def split: prod.splits option.splits)

lemma index_empty: "index Map.empty key = []"
  by (simp add: index_def)

lemma fold_scanLine_index:
  "index (snd (fold (scanLine U cwd) ls acc)) key = index (snd acc) key @ annotationsAt cwd ls key"
proof (induction ls arbitrary: acc)
  case Nil
  then show ?case by (simp add: annotationsAt_def)
next
  case (Cons line ls)
  have "index (snd (scanLine U cwd line acc)) key =
      index (snd acc) key @ annotationsAt cwd [line] key"
    by (simp add: snd_scanLine annotationsAt_def index_def split: option.splits)
  moreover have "annotationsAt cwd (line # ls) key
      = annotationsAt cwd [line] key @ annotationsAt cwd ls key"
    by (simp add: annotationsAt_def)
  ultimately show ?case
    using Cons.IH [of "scanLine U cwd line acc"] by simp
qed

lemma fold_scanLine_fst:
  "fst (fold (scanLine U cwd) ls acc) = fst acc @ decoded U ls"
proof (induction ls arbitrary: acc)
  case Nil
  then show ?case by (simp add: decoded_def)
next
  case (Cons line ls)
  show ?case
    using Cons.IH [of "scanLine U cwd line acc"]
    by (simp add: fst_scanLine decoded_def)
qed

lemma readStats_Inr:
  "readStats U cwd inp = Inr (stats, inl) \<Longrightarrow>
   scanErr inp = None \<and> stats = decoded U (scanned inp)
   \<and> (\<forall>key. index inl key = annotationsAt cwd (scanned inp) key)"
proof -
  assume a: "readStats U cwd inp = Inr (stats, inl)"
  then have e: "scanErr inp = None"
    by (simp add: readStats_def Let_def split: option.splits)
  with a have f: "fold (scanLine U cwd) (scanned inp) ([], Map.empty) = (stats, inl)"
    by (simp add: readStats_def Let_def)
  have "fst (fold (scanLine U cwd) (scanned inp) ([], Map.empty)) = decoded U (scanned inp)"
    by (simp add: fold_scanLine_fst)
  moreover have "index (snd (fold (scanLine U cwd) (scanned inp) ([], Map.empty))) key
      = annotationsAt cwd (scanned inp) key" for key
    by (simp add: fold_scanLine_index index_empty)
  ultimately show ?thesis using e f by simp
qed

text \<open>
  Every recorded position begins with the separator when the working directory does, so
  nothing is recorded under a position that does not.
\<close>

lemma annotationsAt_relative:
  assumes "cwd \<noteq> []" "hd cwd = Separator" "\<not> (key \<noteq> [] \<and> hd key = Separator)"
  shows "annotationsAt cwd ls key = []"
proof -
  have "normalizePos cwd m1 \<noteq> key" for m1
    using normalizePos_rooted [OF assms(1,2), of m1] assms(3) by auto
  then show ?thesis
    by (simp add: annotationsAt_def split: option.splits)
qed


lemma example_readStats:
  "readStats exampleUnmarshal ''/w'' \<lparr>scanned = [annotLine, relJSON], scanErr = None\<rparr>
     = Inr ([relCall], [''/w/a.go:1:2'' \<mapsto> [''foo'']])"
  by (simp add: readStats_def scanLine_def Let_def annotLine_def relJSON_def relCall_def
      exampleUnmarshal_def zeroCallStat_def FindStringSubmatch_def isSpace_def
      normalizePos_def Join_def Clean_def index_def)

text \<open>
  C9: when reading the input faults, \<^verbatim>\<open>readStats\<close> returns the error and neither a record
  list nor a map, and \<^verbatim>\<open>run\<close> returns that error having written nothing.
\<close>

theorem run_read_fault:
  "scanErr inp = Some err \<Longrightarrow>
   readStats Unmarshal cwd inp = Inl err \<and> run Unmarshal Slice cwd inp = ([], Some err)"
  by (simp add: run_def readStats_def Let_def)

theorem run_read_fault_witness:
  "scanErr \<lparr>scanned = [annotLine, relJSON], scanErr = Some (Error ''read error'')\<rparr>
     = Some (Error ''read error'') \<and>
   readStats exampleUnmarshal ''/w''
     \<lparr>scanned = [annotLine, relJSON], scanErr = Some (Error ''read error'')\<rparr>
     = Inl (Error ''read error'') \<and>
   run exampleUnmarshal insertionSort ''/w''
     \<lparr>scanned = [annotLine, relJSON], scanErr = Some (Error ''read error'')\<rparr>
     = ([], Some (Error ''read error''))"
proof -
  have h: "scanErr \<lparr>scanned = [annotLine, relJSON], scanErr = Some (Error ''read error'')\<rparr>
     = Some (Error ''read error'')" by simp
  from run_read_fault [OF h] h show ?thesis by blast
qed

lemma decoded_append: "decoded U (xs @ ys) = decoded U xs @ decoded U ys"
  by (simp add: decoded_def)

lemma readStats_decoded:
  "readStats U cwd \<lparr>scanned = ls, scanErr = None\<rparr>
     = Inr (decoded U ls, snd (fold (scanLine U cwd) ls ([], Map.empty)))"
proof -
  have "fst (fold (scanLine U cwd) ls ([], Map.empty)) = decoded U ls"
    by (simp add: fold_scanLine_fst)
  then have "fold (scanLine U cwd) ls ([], Map.empty)
      = (decoded U ls, snd (fold (scanLine U cwd) ls ([], Map.empty)))"
    by (simp add: prod_eq_iff)
  then show ?thesis
    by (simp add: readStats_def Let_def)
qed

lemma tally_zeroCallStat:
  "tally zeroCallStat t = t\<lparr>count' := (count' t)\<lparr>indirectFunc := indirectFunc (count' t) + 1\<rparr>\<rparr>"
  by (simp add: tally_def zeroCallStat_def Let_def)

lemma aggregate_insert: "aggregate (pre @ s # post) = tally s (aggregate (pre @ post))"
proof -
  have "mset (pre @ s # post) = mset ((pre @ post) @ [s])" by simp
  then have "fold tally (pre @ s # post) zeroTotals = fold tally ((pre @ post) @ [s]) zeroTotals"
    by (rule fold_tally_mset)
  then show ?thesis by (simp add: aggregate_def)
qed

text \<open>
  C10: a line for which the decoder reports no error and leaves every field of the fresh
  record at its zero value (what \<^verbatim>\<open>json.Unmarshal\<close> does with a JSON object none of whose
  keys names a field of \<^verbatim>\<open>CallStat\<close>) is not dropped: the zero record is appended to the
  record list at the place of the line, and the aggregation counts it as one indirect
  function call, adding 1 to \<^verbatim>\<open>count.indirectFunc\<close> and leaving every other sum as it is
  without the line.
\<close>

theorem zero_record_counted:
  assumes "Unmarshal line zeroCallStat = (None, zeroCallStat)"
  shows "\<exists>pre post inlined inlined'.
           readStats Unmarshal cwd \<lparr>scanned = ls1 @ line # ls2, scanErr = None\<rparr>
             = Inr (pre @ zeroCallStat # post, inlined)
         \<and> readStats Unmarshal cwd \<lparr>scanned = ls1 @ ls2, scanErr = None\<rparr>
             = Inr (pre @ post, inlined')
         \<and> aggregate (pre @ zeroCallStat # post)
             = (aggregate (pre @ post))
                 \<lparr>count' := (count' (aggregate (pre @ post)))
                    \<lparr>indirectFunc := indirectFunc (count' (aggregate (pre @ post))) + 1\<rparr>\<rparr>"
proof -
  have d: "decoded Unmarshal (ls1 @ line # ls2)
      = decoded Unmarshal ls1 @ zeroCallStat # decoded Unmarshal ls2"
    using assms by (simp add: decoded_def)
  have d': "decoded Unmarshal (ls1 @ ls2) = decoded Unmarshal ls1 @ decoded Unmarshal ls2"
    by (rule decoded_append)
  have a: "aggregate (decoded Unmarshal ls1 @ zeroCallStat # decoded Unmarshal ls2)
      = (aggregate (decoded Unmarshal ls1 @ decoded Unmarshal ls2))
          \<lparr>count' := (count' (aggregate (decoded Unmarshal ls1 @ decoded Unmarshal ls2)))
             \<lparr>indirectFunc :=
                indirectFunc (count' (aggregate (decoded Unmarshal ls1 @ decoded Unmarshal ls2))) + 1\<rparr>\<rparr>"
    by (simp only: aggregate_insert tally_zeroCallStat)
  show ?thesis
    using readStats_decoded [of Unmarshal cwd "ls1 @ line # ls2"]
      readStats_decoded [of Unmarshal cwd "ls1 @ ls2"] a
    unfolding d d' by blast
qed

theorem zero_record_counted_witness:
  "exampleUnmarshal ''{}'' zeroCallStat = (None, zeroCallStat) \<and>
   (\<exists>pre post inlined inlined'.
           readStats exampleUnmarshal ''/w'' \<lparr>scanned = [annotLine] @ ''{}'' # [relJSON], scanErr = None\<rparr>
             = Inr (pre @ zeroCallStat # post, inlined)
         \<and> readStats exampleUnmarshal ''/w'' \<lparr>scanned = [annotLine] @ [relJSON], scanErr = None\<rparr>
             = Inr (pre @ post, inlined')
         \<and> aggregate (pre @ zeroCallStat # post)
             = (aggregate (pre @ post))
                 \<lparr>count' := (count' (aggregate (pre @ post)))
                    \<lparr>indirectFunc := indirectFunc (count' (aggregate (pre @ post))) + 1\<rparr>\<rparr>)"
proof -
  have h: "exampleUnmarshal ''{}'' zeroCallStat = (None, zeroCallStat)"
    by (simp add: exampleUnmarshal_def relJSON_def)
  from zero_record_counted [where Unmarshal = exampleUnmarshal and line = "''{}''"
      and cwd = "''/w''" and ?ls1.0 = "[annotLine]" and ?ls2.0 = "[relJSON]", OF h] h
  show ?thesis by blast
qed

text \<open>
  C2, as amended: the annotation lines printed beneath a record are the symbols recorded
  under the record's position string as it stands, in the order of the input lines. The
  positions of annotation lines are normalised before they are recorded; the position of
  the record is not normalised before it is looked up. For a record whose position is
  absolute the two agree, its position being its own normal form.
\<close>

theorem annotations_by_record_position:
  assumes "readStats Unmarshal cwd inp = Inr (stats, inlined)"
  shows "tl (printCall inlined s) =
           map (\<lambda>sym. Printf (TAB @ TAB @ ''inlined %s'' @ NL) [S sym])
             (annotationsAt cwd (scanned inp) (Pos s))
         \<and> (Pos s \<noteq> [] \<and> hd (Pos s) = CHR ''/'' \<longrightarrow> normalizePos cwd (Pos s) = Pos s)"
proof -
  from readStats_Inr [OF assms]
  have i: "index inlined (Pos s) = annotationsAt cwd (scanned inp) (Pos s)" by simp
  have t: "tl (printCall inlined s) =
      map (\<lambda>sym. Printf (TAB @ TAB @ ''inlined %s'' @ NL) [S sym]) (index inlined (Pos s))"
    by (simp add: printCall_def Let_def)
  show ?thesis
    using i t by (auto simp: normalizePos_absolute simp del: append.simps)
qed

theorem annotations_by_record_position_witness:
  "readStats exampleUnmarshal ''/w'' \<lparr>scanned = [annotLine, relJSON], scanErr = None\<rparr>
     = Inr ([relCall], [''/w/a.go:1:2'' \<mapsto> [''foo'']]) \<and>
   Pos funcCall \<noteq> [] \<and> hd (Pos funcCall) = CHR ''/'' \<and>
   normalizePos ''/w'' (Pos funcCall) = Pos funcCall \<and>
   tl (printCall [''/w/a.go:1:2'' \<mapsto> [''foo'']] funcCall) =
     map (\<lambda>sym. Printf (TAB @ TAB @ ''inlined %s'' @ NL) [S sym])
       (annotationsAt ''/w'' (scanned \<lparr>scanned = [annotLine, relJSON], scanErr = None\<rparr>)
          (Pos funcCall)) \<and>
   annotationsAt ''/w'' [annotLine, relJSON] (Pos funcCall) = [''foo'']"
proof -
  have p: "Pos funcCall \<noteq> [] \<and> hd (Pos funcCall) = CHR ''/''"
    by (simp add: funcCall_def zeroCallStat_def)
  have v: "annotationsAt ''/w'' [annotLine, relJSON] (Pos funcCall) = [''foo'']"
    by (simp add: annotationsAt_def annotLine_def relJSON_def funcCall_def zeroCallStat_def
        FindStringSubmatch_def isSpace_def normalizePos_def Join_def Clean_def)
  from annotations_by_record_position [OF example_readStats, of funcCall] p v example_readStats
  show ?thesis by blast
qed

text \<open>
  C2, as stated, fails: the input has an annotation line at the relative position
  \<^verbatim>\<open>a.go:1:2\<close> and a call record at the same relative position, with working directory
  \<^verbatim>\<open>/w\<close>. The symbol \<^verbatim>\<open>foo\<close> is recorded under the normalised position of the record,
  and no annotation line is printed beneath the record.
\<close>

theorem annotations_normalized_counterexample:
  "readStats exampleUnmarshal ''/w'' \<lparr>scanned = [annotLine, relJSON], scanErr = None\<rparr>
     = Inr ([relCall], [''/w/a.go:1:2'' \<mapsto> [''foo'']]) \<and>
   \<not> Direct relCall \<and>
   index [''/w/a.go:1:2'' \<mapsto> [''foo'']] (normalizePos ''/w'' (Pos relCall)) = [''foo''] \<and>
   tl (printCall [''/w/a.go:1:2'' \<mapsto> [''foo'']] relCall) = [] \<and>
   tl (printCall [''/w/a.go:1:2'' \<mapsto> [''foo'']] relCall) \<noteq>
     map (\<lambda>sym. Printf (TAB @ TAB @ ''inlined %s'' @ NL) [S sym])
       (index [''/w/a.go:1:2'' \<mapsto> [''foo'']] (normalizePos ''/w'' (Pos relCall)))"
proof -
  have a: "index [''/w/a.go:1:2'' \<mapsto> [''foo'']] (normalizePos ''/w'' (Pos relCall)) = [''foo'']"
    by (simp add: relCall_def zeroCallStat_def normalizePos_def Join_def Clean_def index_def)
  have b: "tl (printCall [''/w/a.go:1:2'' \<mapsto> [''foo'']] relCall) = []"
    by (simp add: relCall_def zeroCallStat_def index_def printCall_def)
  have c: "\<not> Direct relCall"
    by (simp add: relCall_def zeroCallStat_def)
  show ?thesis
    unfolding a b using example_readStats c by simp
qed

subsection \<open>Ranking\<close>

lemma emit_Nil: "emit inlined [] st = st"
  by (simp add: emit_def)

lemma emit_Cons: "\<not> Direct s \<Longrightarrow> emit inlined (s # sel) st = emit inlined sel (visit inlined s st)"
  by (simp add: emit_def visit_def add.assoc)

lemma visit_Direct: "Direct s \<Longrightarrow> visit inlined s st = st"
  by (simp add: visit_def)

lemma printed_visit: "\<not> Direct s \<Longrightarrow> printed (visit inlined s st) = Suc (printed st)"
  by (simp add: visit_def)

lemma topLoop_emit:
  "n \<le> length stats \<Longrightarrow>
   topLoop k inlined stats n st =
     emit inlined (take (k - printed st) (filter (\<lambda>s. \<not> Direct s) (rev (take n stats)))) st"
proof (induction n arbitrary: st)
  case 0
  then show ?case by (simp add: emit_Nil)
next
  case (Suc i)
  then have i: "i < length stats" and i': "i \<le> length stats" by simp_all
  have r: "rev (take (Suc i) stats) = stats ! i # rev (take i stats)"
    using i by (simp add: take_Suc_conv_app_nth)
  show ?case
  proof (cases "printed st < k")
    case False
    then show ?thesis by (simp add: emit_Nil)
  next
    case True
    then obtain m where m: "k - printed st = Suc m" by (cases "k - printed st") auto
    show ?thesis
    proof (cases "Direct (stats ! i)")
      case d: True
      then show ?thesis
        using True Suc.IH [OF i', of st] by (simp add: r visit_Direct)
    next
      case d: False
      have "k - printed (visit inlined (stats ! i) st) = m"
        using m d by (simp add: printed_visit)
      then show ?thesis
        using True d m Suc.IH [OF i', of "visit inlined (stats ! i) st"]
        by (simp add: r emit_Cons)
    qed
  qed
qed

lemma topLoop_topK:
  "topLoop k inlined stats (length stats)
     \<lparr>stdout = o1, printed = 0, topWeight = 0, topHottestWeight = 0\<rparr>
   = \<lparr>stdout = o1 @ concat (map (printCall inlined) (topK k stats)),
      printed = length (topK k stats),
      topWeight = sum_list (map Weight (topK k stats)),
      topHottestWeight = sum_list (map HottestWeight (topK k stats))\<rparr>"
  by (simp add: topLoop_emit emit_def topK_def)

lemma lessStat_keyLess: "lessStat a b \<longleftrightarrow> keyLess a b"
  by (auto simp: lessStat_def keyLess_def word_sless_alt signed_word_eqI)

lemma lessStat_irrefl: "\<not> lessStat a a"
  by (simp add: lessStat_def)

lemma sorted_index:
  assumes "sorted_wrt (\<lambda>x y. \<not> lessStat y x) ss" "i < length ss" "j < length ss"
    "lessStat (ss ! i) (ss ! j)"
  shows "i < j"
proof (rule ccontr)
  assume "\<not> i < j"
  then consider "i = j" | "j < i" by arith
  then show False
  proof cases
    case 1
    with assms(4) show False by (simp add: lessStat_irrefl)
  next
    case 2
    from sorted_wrt_nth_less [OF assms(1) 2 assms(2)] assms(4) show False by simp
  qed
qed

lemma topK_sorted:
  assumes "sorted_wrt (\<lambda>x y. \<not> lessStat y x) ss"
  shows "sorted_wrt (\<lambda>x y. \<not> lessStat x y) (topK k ss)"
proof -
  from assms have "sorted_wrt (\<lambda>x y. \<not> lessStat x y) (rev ss)"
    by (simp add: sorted_wrt_rev)
  then have "sorted_wrt (\<lambda>x y. \<not> lessStat x y) (filter (\<lambda>s. \<not> Direct s) (rev ss))"
    by (rule sorted_wrt_filter)
  then show ?thesis
    unfolding topK_def by (rule sorted_wrt_take)
qed

lemma topK_rest:
  assumes "sorted_wrt (\<lambda>x y. \<not> lessStat y x) ss"
  shows "filter (\<lambda>s. \<not> Direct s) (rev ss) = topK k ss @ drop k (filter (\<lambda>s. \<not> Direct s) (rev ss))
       \<and> (\<forall>a\<in>set (topK k ss). \<forall>b\<in>set (drop k (filter (\<lambda>s. \<not> Direct s) (rev ss))). \<not> lessStat a b)"
proof -
  from assms have "sorted_wrt (\<lambda>x y. \<not> lessStat x y) (rev ss)"
    by (simp add: sorted_wrt_rev)
  then have "sorted_wrt (\<lambda>x y. \<not> lessStat x y) (filter (\<lambda>s. \<not> Direct s) (rev ss))"
    by (rule sorted_wrt_filter)
  then have "sorted_wrt (\<lambda>x y. \<not> lessStat x y)
      (topK k ss @ drop k (filter (\<lambda>s. \<not> Direct s) (rev ss)))"
    by (simp add: topK_def)
  then have "\<forall>a\<in>set (topK k ss). \<forall>b\<in>set (drop k (filter (\<lambda>s. \<not> Direct s) (rev ss))).
      \<not> lessStat a b"
    by (simp only: sorted_wrt_append) blast
  then show ?thesis
    by (simp add: topK_def)
qed



text \<open>The comparison is a strict order, and insertion sort meets the contract of \<^verbatim>\<open>sort.Slice\<close> with it.\<close>

lemma lessStat_trans: "lessStat a b \<Longrightarrow> lessStat b c \<Longrightarrow> lessStat a c"
  unfolding lessStat_keyLess keyLess_def
  by (elim disjE conjE) (auto simp: signed_word_eqI)

lemma lessStat_asym: "lessStat a b \<Longrightarrow> \<not> lessStat b a"
  using lessStat_trans [of a b a] lessStat_irrefl [of a] by blast

lemma set_insertBy: "set (insertBy lt x ys) = insert x (set ys)"
  by (induction ys) auto

lemma mset_insertBy: "mset (insertBy lt x ys) = add_mset x (mset ys)"
  by (induction ys) auto

lemma sorted_insertBy:
  "sorted_wrt (\<lambda>x y. \<not> lessStat y x) ys \<Longrightarrow>
   sorted_wrt (\<lambda>x y. \<not> lessStat y x) (insertBy lessStat x ys)"
proof (induction ys)
  case Nil
  then show ?case by simp
next
  case (Cons y ys)
  show ?case
  proof (cases "lessStat x y")
    case True
    have "\<not> lessStat z x" if "z \<in> set (y # ys)" for z
    proof
      assume "lessStat z x"
      from this True have zy: "lessStat z y" by (rule lessStat_trans)
      from that Cons.prems zy show False
        by (auto simp: lessStat_irrefl)
    qed
    with Cons.prems True show ?thesis by simp
  next
    case False
    with Cons show ?thesis by (auto simp: set_insertBy)
  qed
qed

lemma insertionSort_contract: "sortContract lessStat stats (insertionSort lessStat stats)"
proof -
  have "mset (foldr (insertBy lessStat) xs []) = mset xs
      \<and> sorted_wrt (\<lambda>x y. \<not> lessStat y x) (foldr (insertBy lessStat) xs [])" for xs
    by (induction xs) (simp_all add: mset_insertBy sorted_insertBy)
  then show ?thesis
    by (simp add: sortContract_def insertionSort_def)
qed

text \<open>
  The output of a run that read its input without a fault: the breakdowns, the heading,
  the lines of the selected records, and the two sums over the selected records.
\<close>

lemma run_output:
  assumes "readStats Unmarshal cwd inp = Inr (stats, inlined)"
  shows "run Unmarshal Slice cwd inp
           = (report stats inlined (topK topCount (Slice lessStat stats)), None)"
  using assms by (simp add: run_def report_def Let_def topLoop_topK del: append.simps)

lemma filter_length_mset:
  "mset xs = mset ys \<Longrightarrow> length (filter P xs) = length (filter P ys)"
proof -
  assume "mset xs = mset ys"
  then have "mset (filter P xs) = mset (filter P ys)" by simp
  then show ?thesis by (rule mset_eq_length)
qed

lemma example_rank_readStats:
  "readStats rankUnmarshal ''/w'' rankInput = Inr ([ifaceCall, hotDirect, funcCall], Map.empty)"
  by (simp add: readStats_def scanLine_def Let_def rankInput_def rankUnmarshal_def
      funcJSON_def ifaceJSON_def directJSON_def funcCall_def ifaceCall_def hotDirect_def
      zeroCallStat_def FindStringSubmatch_def isSpace_def)

lemma example_rank_sort:
  "insertionSort lessStat [ifaceCall, hotDirect, funcCall] = [funcCall, ifaceCall, hotDirect]"
  by (simp add: insertionSort_def lessStat_def funcCall_def ifaceCall_def hotDirect_def
      zeroCallStat_def)

lemma example_rank_topK:
  "topK topCount (insertionSort lessStat [ifaceCall, hotDirect, funcCall]) = [ifaceCall, funcCall]"
  unfolding example_rank_sort
  by (simp add: topK_def topCount_def funcCall_def ifaceCall_def hotDirect_def zeroCallStat_def)

lemma example_lessStat: "lessStat funcCall ifaceCall"
  by (simp add: lessStat_def funcCall_def ifaceCall_def zeroCallStat_def)

text \<open>
  C3: the comparison that \<^verbatim>\<open>run\<close> hands to \<^verbatim>\<open>sort.Slice\<close> is the lexicographic
  order of the key (hottest weight, package, position), and, \<^verbatim>\<open>sort.Slice\<close> doing what
  its contract says, the listing that \<^verbatim>\<open>run\<close> prints holds the records of the sorted
  slice taken from its end. So the printed records never ascend in that order; and of two
  records of the sorted slice with equal hottest weight, the one with the smaller package
  stands earlier in the slice (and is reached later by the listing), and with equal
  packages too, the one with the smaller position stands earlier.
\<close>

theorem ranking_order:
  assumes "readStats Unmarshal cwd inp = Inr (stats, inlined)"
    and "sortContract lessStat stats (Slice lessStat stats)"
  shows "(lessStat a b \<longleftrightarrow> keyLess a b)
       \<and> run Unmarshal Slice cwd inp
           = (report stats inlined (topK topCount (Slice lessStat stats)), None)
       \<and> set (topK topCount (Slice lessStat stats)) \<subseteq> set stats
       \<and> sorted_wrt (\<lambda>x y. \<not> lessStat x y) (topK topCount (Slice lessStat stats))
       \<and> (\<forall>i<length (Slice lessStat stats). \<forall>j<length (Slice lessStat stats).
            HottestWeight (Slice lessStat stats ! i) = HottestWeight (Slice lessStat stats ! j)
            \<and> Pkg (Slice lessStat stats ! i) < Pkg (Slice lessStat stats ! j)
            \<longrightarrow> i < j)
       \<and> (\<forall>i<length (Slice lessStat stats). \<forall>j<length (Slice lessStat stats).
            HottestWeight (Slice lessStat stats ! i) = HottestWeight (Slice lessStat stats ! j)
            \<and> Pkg (Slice lessStat stats ! i) = Pkg (Slice lessStat stats ! j)
            \<and> Pos (Slice lessStat stats ! i) < Pos (Slice lessStat stats ! j)
            \<longrightarrow> i < j)"
proof -
  define ss where "ss = Slice lessStat stats"
  from assms(2) have m: "mset ss = mset stats" and s: "sorted_wrt (\<lambda>x y. \<not> lessStat y x) ss"
    by (simp_all add: sortContract_def ss_def)
  have "set (topK topCount ss) \<subseteq> set ss"
    by (auto simp: topK_def dest: in_set_takeD)
  moreover from m have "set ss = set stats" by (rule mset_eq_setD)
  ultimately have sub: "set (topK topCount ss) \<subseteq> set stats" by simp
  have pk: "i < j" if "i < length ss" "j < length ss"
    "HottestWeight (ss ! i) = HottestWeight (ss ! j)" "Pkg (ss ! i) < Pkg (ss ! j)" for i j
  proof -
    from that(3,4) have "lessStat (ss ! i) (ss ! j)" by (auto simp: lessStat_def)
    with s that(1,2) show ?thesis by (rule sorted_index)
  qed
  have ps: "i < j" if "i < length ss" "j < length ss"
    "HottestWeight (ss ! i) = HottestWeight (ss ! j)" "Pkg (ss ! i) = Pkg (ss ! j)"
    "Pos (ss ! i) < Pos (ss ! j)" for i j
  proof -
    from that(3,4,5) have "lessStat (ss ! i) (ss ! j)" by (simp add: lessStat_def)
    with s that(1,2) show ?thesis by (rule sorted_index)
  qed
  have k1: "lessStat a b \<longleftrightarrow> keyLess a b"
    by (rule lessStat_keyLess)
  have k2: "run Unmarshal Slice cwd inp = (report stats inlined (topK topCount ss), None)"
    unfolding ss_def using assms(1) by (rule run_output)
  have k4: "sorted_wrt (\<lambda>x y. \<not> lessStat x y) (topK topCount ss)"
    using s by (rule topK_sorted)
  have k5: "\<forall>i<length ss. \<forall>j<length ss.
            HottestWeight (ss ! i) = HottestWeight (ss ! j) \<and> Pkg (ss ! i) < Pkg (ss ! j)
            \<longrightarrow> i < j"
    using pk by blast
  have k6: "\<forall>i<length ss. \<forall>j<length ss.
            HottestWeight (ss ! i) = HottestWeight (ss ! j) \<and> Pkg (ss ! i) = Pkg (ss ! j)
            \<and> Pos (ss ! i) < Pos (ss ! j)
            \<longrightarrow> i < j"
    using ps by blast
  show ?thesis
    using conjI [OF k1 conjI [OF k2 conjI [OF sub conjI [OF k4 conjI [OF k5 k6]]]]]
    unfolding ss_def .
qed

theorem ranking_order_witness:
  "readStats rankUnmarshal ''/w'' rankInput = Inr ([ifaceCall, hotDirect, funcCall], Map.empty) \<and>
   sortContract lessStat [ifaceCall, hotDirect, funcCall]
     (insertionSort lessStat [ifaceCall, hotDirect, funcCall]) \<and>
   run rankUnmarshal insertionSort ''/w'' rankInput
     = (report [ifaceCall, hotDirect, funcCall] Map.empty
          (topK topCount (insertionSort lessStat [ifaceCall, hotDirect, funcCall])), None) \<and>
   topK topCount (insertionSort lessStat [ifaceCall, hotDirect, funcCall])
     = [ifaceCall, funcCall] \<and>
   lessStat funcCall ifaceCall \<and> keyLess funcCall ifaceCall"
proof -
  note h = insertionSort_contract [of "[ifaceCall, hotDirect, funcCall]"]
  note r = ranking_order [where Slice = insertionSort and a = funcCall and b = ifaceCall,
      OF example_rank_readStats h]
  from r [THEN conjunct1] example_lessStat have k: "keyLess funcCall ifaceCall" by (rule iffD1)
  show ?thesis
    by (rule conjI [OF example_rank_readStats conjI [OF h
          conjI [OF r [THEN conjunct2, THEN conjunct1]
            conjI [OF example_rank_topK conjI [OF example_lessStat k]]]]])
qed

text \<open>
  C4: \<^verbatim>\<open>sort.Slice\<close> doing what its contract says, the listing that \<^verbatim>\<open>run\<close> prints
  holds no direct record, and a direct record that the loop passes over takes no slot:
  what is printed, and summed, are the first \<^verbatim>\<open>topCount\<close> records that are not direct,
  counted from the end of the sorted slice, or all the records that are not direct if
  there are fewer; no record that is not direct and is left out ranks above a printed one.
\<close>

theorem listing_skips_direct:
  assumes "readStats Unmarshal cwd inp = Inr (stats, inlined)"
    and "sortContract lessStat stats (Slice lessStat stats)"
  shows "run Unmarshal Slice cwd inp
           = (report stats inlined (topK topCount (Slice lessStat stats)), None)
       \<and> (\<forall>s\<in>set (topK topCount (Slice lessStat stats)). \<not> Direct s)
       \<and> length (topK topCount (Slice lessStat stats))
           = min topCount (length (filter (\<lambda>s. \<not> Direct s) stats))
       \<and> filter (\<lambda>s. \<not> Direct s) (rev (Slice lessStat stats))
           = topK topCount (Slice lessStat stats)
             @ drop topCount (filter (\<lambda>s. \<not> Direct s) (rev (Slice lessStat stats)))
       \<and> (\<forall>a\<in>set (topK topCount (Slice lessStat stats)).
            \<forall>b\<in>set (drop topCount (filter (\<lambda>s. \<not> Direct s) (rev (Slice lessStat stats)))).
              \<not> lessStat a b)"
proof -
  define ss where "ss = Slice lessStat stats"
  from assms(2) have m: "mset ss = mset stats" and s: "sorted_wrt (\<lambda>x y. \<not> lessStat y x) ss"
    by (simp_all add: sortContract_def ss_def)
  have k1: "run Unmarshal Slice cwd inp = (report stats inlined (topK topCount ss), None)"
    unfolding ss_def using assms(1) by (rule run_output)
  have d: "\<forall>s\<in>set (topK topCount ss). \<not> Direct s"
    by (auto simp: topK_def dest: in_set_takeD)
  have "mset (rev ss) = mset stats" using m by simp
  then have "length (filter (\<lambda>s. \<not> Direct s) (rev ss)) = length (filter (\<lambda>s. \<not> Direct s) stats)"
    by (rule filter_length_mset)
  then have n: "length (topK topCount ss) = min topCount (length (filter (\<lambda>s. \<not> Direct s) stats))"
    by (simp add: topK_def min.commute)
  note r = topK_rest [OF s, of topCount]
  show ?thesis
    using conjI [OF k1 conjI [OF d conjI [OF n r]]]
    unfolding ss_def .
qed

theorem listing_skips_direct_witness:
  "readStats rankUnmarshal ''/w'' rankInput = Inr ([ifaceCall, hotDirect, funcCall], Map.empty) \<and>
   sortContract lessStat [ifaceCall, hotDirect, funcCall]
     (insertionSort lessStat [ifaceCall, hotDirect, funcCall]) \<and>
   Direct hotDirect \<and>
   insertionSort lessStat [ifaceCall, hotDirect, funcCall] = [funcCall, ifaceCall, hotDirect] \<and>
   run rankUnmarshal insertionSort ''/w'' rankInput
     = (report [ifaceCall, hotDirect, funcCall] Map.empty
          (topK topCount (insertionSort lessStat [ifaceCall, hotDirect, funcCall])), None) \<and>
   topK topCount (insertionSort lessStat [ifaceCall, hotDirect, funcCall])
     = [ifaceCall, funcCall] \<and>
   length (topK topCount (insertionSort lessStat [ifaceCall, hotDirect, funcCall]))
     = min topCount (length (filter (\<lambda>s. \<not> Direct s) [ifaceCall, hotDirect, funcCall]))"
proof -
  have d: "Direct hotDirect"
    by (simp add: hotDirect_def zeroCallStat_def)
  note h = insertionSort_contract [of "[ifaceCall, hotDirect, funcCall]"]
  note r = listing_skips_direct [where Slice = insertionSort, OF example_rank_readStats h]
  show ?thesis
    by (rule conjI [OF example_rank_readStats conjI [OF h conjI [OF d
          conjI [OF example_rank_sort conjI [OF r [THEN conjunct1]
            conjI [OF example_rank_topK r [THEN conjunct2, THEN conjunct2, THEN conjunct1]]]]]]])
qed

subsection \<open>Percentages\<close>


lemma example_pct:
  "fev (pct 0 0) = NaN \<and> fev (pct 5 0) = Infinity Positive
   \<and> fev (pct (- 3) 0) = Infinity Negative \<and> fev (pct 5 2) = Finite Positive"
  by (simp add: pct_def classOfInt_def)


end
